theory Spec2Isabelle
  imports Complex_Main "HOL-Library.Multiset"
begin

section \<open>Data model: cells, series and data frames\<close>

text \<open>
  The module \<^verbatim>\<open>greykite/sklearn/estimator/silverkite_diagnostics.py\<close> works on pandas
  data frames. A cell is a number or a missing value (\<open>None\<close> stands for NaN and NaT);
  arithmetic on present cells is exact, so the rounding of 64-bit floats is not part of the
  model. Timestamps are cells too: a point in time is its number on the time axis.
  A frame is its number of rows (the length of the index) and its labelled columns in
  order. Rows are identified by position: every frame met by one call carries the same
  index, so that pandas' alignment of an assigned series is the identity.
\<close>

type_synonym cell = "real option"
type_synonym series = "cell list"

record frame =
  nrows :: nat
  cols :: "(string \<times> series) list"

datatype pyerror =
  ValueError string
  | KeyError string
  | NotImplementedError string
  | ZeroDivisionError

text \<open>\<^verbatim>\<open>df.columns\<close>\<close>

definition columns :: "frame \<Rightarrow> string list" where
  "columns f = map fst (cols f)"

text \<open>
  The invariant of a pandas frame with unique labels: every column has one cell per row.
\<close>

definition wf_frame :: "frame \<Rightarrow> bool" where
  "wf_frame f \<longleftrightarrow> distinct (columns f) \<and> list_all (\<lambda>kc. length (snd kc) = nrows f) (cols f)"

text \<open>\<^verbatim>\<open>df.empty\<close>: true when either axis has length 0.\<close>

definition is_empty :: "frame \<Rightarrow> bool" where
  "is_empty f \<longleftrightarrow> nrows f = 0 \<or> cols f = []"

text \<open>
  \<^verbatim>\<open>df[names]\<close> with a list of labels. pandas returns, for each requested label in turn,
  every column carrying it, and raises KeyError when a label is absent.
\<close>

definition select_cols :: "frame \<Rightarrow> string list \<Rightarrow> frame" where
  "select_cols f ns = f\<lparr>cols := concat (map (\<lambda>n. filter (\<lambda>kc. fst kc = n) (cols f)) ns)\<rparr>"

definition getitem_cols :: "frame \<Rightarrow> string list \<Rightarrow> pyerror + frame" where
  "getitem_cols f ns =
     (if list_all (\<lambda>n. n \<in> set (columns f)) ns then Inr (select_cols f ns)
      else Inl (KeyError ''not in index''))"

text \<open>\<^verbatim>\<open>df[name]\<close> with one label.\<close>

definition getitem :: "frame \<Rightarrow> string \<Rightarrow> pyerror + series" where
  "getitem f n = (case map_of (cols f) n of None \<Rightarrow> Inl (KeyError n) | Some s \<Rightarrow> Inr s)"

text \<open>
  \<^verbatim>\<open>df[name] = values\<close>: an existing label keeps its position and takes the new values,
  a new label is appended as the last column.
\<close>

definition setitem :: "frame \<Rightarrow> string \<Rightarrow> series \<Rightarrow> frame" where
  "setitem f n s =
     (if n \<in> set (columns f)
      then f\<lparr>cols := map (\<lambda>kc. if fst kc = n then (n, s) else kc) (cols f)\<rparr>
      else f\<lparr>cols := cols f @ [(n, s)]\<rparr>)"

text \<open>\<^verbatim>\<open>df.drop(name, axis=1)\<close> for a label that is present.\<close>

definition drop_col :: "frame \<Rightarrow> string \<Rightarrow> frame" where
  "drop_col f n = f\<lparr>cols := filter (\<lambda>kc. fst kc \<noteq> n) (cols f)\<rparr>"

text \<open>
  \<^verbatim>\<open>df.sum(axis=1)\<close>: the sum of each row over all columns; pandas skips missing cells
  (\<^verbatim>\<open>skipna=True\<close>), so a row without any present cell sums to 0.
\<close>

definition nan_to_zero :: "cell \<Rightarrow> real" where
  "nan_to_zero c = (case c of None \<Rightarrow> 0 | Some v \<Rightarrow> v)"

definition row_total :: "frame \<Rightarrow> nat \<Rightarrow> real" where
  "row_total f i = sum_list (map (\<lambda>kc. nan_to_zero (snd kc ! i)) (cols f))"

definition sum_axis1 :: "frame \<Rightarrow> series" where
  "sum_axis1 f = map (\<lambda>i. Some (row_total f i)) [0..<nrows f]"

text \<open>Elementwise float arithmetic of numpy: a missing operand gives a missing result.\<close>

definition cell_sub :: "cell \<Rightarrow> cell \<Rightarrow> cell" where
  "cell_sub a b = (case (a, b) of (Some x, Some y) \<Rightarrow> Some (x - y) | _ \<Rightarrow> None)"

definition cell_add :: "cell \<Rightarrow> cell \<Rightarrow> cell" where
  "cell_add a b = (case (a, b) of (Some x, Some y) \<Rightarrow> Some (x + y) | _ \<Rightarrow> None)"

definition cell_scale :: "real \<Rightarrow> cell \<Rightarrow> cell" where
  "cell_scale k a = map_option (\<lambda>x. k * x) a"

section \<open>Names and patterns\<close>

text \<open>Python's \<^verbatim>\<open>needle in haystack\<close> on strings.\<close>

fun starts_with :: "string \<Rightarrow> string \<Rightarrow> bool" where
  "starts_with [] s = True"
| "starts_with (p # ps) [] = False"
| "starts_with (p # ps) (c # cs) = (p = c \<and> starts_with ps cs)"

fun str_contains :: "string \<Rightarrow> string \<Rightarrow> bool" where
  "str_contains needle [] = (needle = [])"
| "str_contains needle (c # cs) = (starts_with needle (c # cs) \<or> str_contains needle cs)"

text \<open>
  A regular expression is its source text, or the alternation \<^verbatim>\<open>f"{a}|{b}"\<close> of two
  expressions. What \<^verbatim>\<open>re.search\<close> answers on a source text is a parameter (the first
  argument below); an alternation is found where either side is.
\<close>

datatype pattern = Re string | Alt pattern pattern

fun re_search :: "(string \<Rightarrow> string \<Rightarrow> bool) \<Rightarrow> pattern \<Rightarrow> string \<Rightarrow> bool" where
  "re_search m (Re p) s = m p s"
| "re_search m (Alt a b) s = (re_search m a s \<or> re_search m b s)"

text \<open>
  Modelled from the spec: \<^verbatim>\<open>get_pattern_cols\<close> of \<^verbatim>\<open>greykite.common.python_utils\<close> is
  not part of the source tree. It keeps, in order, the names that match the positive
  pattern and do not match the negative pattern (when one is given).
\<close>

definition get_pattern_cols ::
  "(string \<Rightarrow> string \<Rightarrow> bool) \<Rightarrow> string list \<Rightarrow> pattern \<Rightarrow> pattern option \<Rightarrow> string list" where
  "get_pattern_cols m cs pos neg =
     filter (\<lambda>c. re_search m pos c \<and>
                 \<not> (case neg of None \<Rightarrow> False | Some p \<Rightarrow> re_search m p c)) cs"

text \<open>
  The value of a member of \<^verbatim>\<open>SilverkiteComponentsEnum\<close>, and the constants of
  \<^verbatim>\<open>greykite.common.constants\<close> and the helpers the module imports. None of them is in the
  source tree; they are parameters of the model.
\<close>

record silverkite_component =
  groupby_time_feature :: string
  xlabel :: string
  ylabel :: string

record constants =
  TREND_REGEX :: string
  SEASONALITY_REGEX :: string
  LAG_REGEX :: string
  EVENT_REGEX :: string
  re_match :: "string \<Rightarrow> string \<Rightarrow> bool"
  components_enum :: "(string \<times> silverkite_component) list"
  changepoint_dates_from_cols :: "string list \<Rightarrow> real list"
  time_feature :: "string \<Rightarrow> real \<Rightarrow> real"

section \<open>\<^verbatim>\<open>get_silverkite_components\<close>\<close>

text \<open>
  Each block of the function is one step on the components table. The labels summed by
  \<^verbatim>\<open>feature_df[cols].sum(axis=1)\<close> are drawn from \<^verbatim>\<open>feature_df.columns\<close>, so that
  selection cannot raise and is written with \<open>select_cols\<close>.
\<close>

definition trend_cols_of :: "constants \<Rightarrow> frame \<Rightarrow> string list" where
  "trend_cols_of k fdf =
     get_pattern_cols (re_match k) (columns fdf) (Re (TREND_REGEX k))
       (Some (Alt (Re (SEASONALITY_REGEX k)) (Re (LAG_REGEX k))))"

definition lag_cols_of :: "constants \<Rightarrow> frame \<Rightarrow> string list" where
  "lag_cols_of k fdf = get_pattern_cols (re_match k) (columns fdf) (Re (LAG_REGEX k)) None"

definition ar_cols_of :: "constants \<Rightarrow> string \<Rightarrow> frame \<Rightarrow> string list" where
  "ar_cols_of k value_col fdf = filter (\<lambda>lag_col. str_contains value_col lag_col) (lag_cols_of k fdf)"

definition lagged_regressor_cols_of :: "constants \<Rightarrow> string \<Rightarrow> frame \<Rightarrow> string list" where
  "lagged_regressor_cols_of k value_col fdf =
     filter (\<lambda>lag_col. \<not> str_contains value_col lag_col) (lag_cols_of k fdf)"

definition seas_cols_of :: "constants \<Rightarrow> frame \<Rightarrow> string list" where
  "seas_cols_of k fdf = get_pattern_cols (re_match k) (columns fdf) (Re (SEASONALITY_REGEX k)) None"

definition seas_pattern_cols_of :: "constants \<Rightarrow> frame \<Rightarrow> silverkite_component \<Rightarrow> string list" where
  "seas_pattern_cols_of k fdf sc =
     get_pattern_cols (re_match k) (seas_cols_of k fdf) (Re (ylabel sc)) None"

definition event_cols_of :: "constants \<Rightarrow> frame \<Rightarrow> string list" where
  "event_cols_of k fdf = get_pattern_cols (re_match k) (columns fdf) (Re (EVENT_REGEX k)) None"

definition add_trend :: "constants \<Rightarrow> frame \<Rightarrow> frame \<Rightarrow> frame" where
  "add_trend k fdf components =
     (let trend_cols = trend_cols_of k fdf in
      if trend_cols \<noteq> []
      then setitem components ''trend'' (sum_axis1 (select_cols fdf trend_cols))
      else components)"

definition add_lags :: "constants \<Rightarrow> string \<Rightarrow> frame \<Rightarrow> frame \<Rightarrow> frame" where
  "add_lags k value_col fdf components =
     (if lag_cols_of k fdf \<noteq> [] then
        (let ar_cols = ar_cols_of k value_col fdf;
             c1 = (if ar_cols \<noteq> []
                   then setitem components ''autoregression'' (sum_axis1 (select_cols fdf ar_cols))
                   else components);
             lagged_regressor_cols = lagged_regressor_cols_of k value_col fdf
         in if lagged_regressor_cols \<noteq> []
            then setitem c1 ''lagged_regressor'' (sum_axis1 (select_cols fdf lagged_regressor_cols))
            else c1)
      else components)"

definition add_seas :: "constants \<Rightarrow> frame \<Rightarrow> string \<times> silverkite_component \<Rightarrow> frame \<Rightarrow> frame" where
  "add_seas k fdf member components =
     (let seas_pattern_cols = seas_pattern_cols_of k fdf (snd member) in
      if seas_pattern_cols \<noteq> []
      then setitem components (fst member) (sum_axis1 (select_cols fdf seas_pattern_cols))
      else components)"

definition add_seasonalities :: "constants \<Rightarrow> frame \<Rightarrow> frame \<Rightarrow> frame" where
  "add_seasonalities k fdf components = fold (add_seas k fdf) (components_enum k) components"

definition add_events :: "constants \<Rightarrow> frame \<Rightarrow> frame \<Rightarrow> frame" where
  "add_events k fdf components =
     (let event_cols = event_cols_of k fdf in
      if event_cols \<noteq> []
      then setitem components ''events'' (sum_axis1 (select_cols fdf event_cols))
      else components)"

definition residual_of :: "series \<Rightarrow> frame \<Rightarrow> series" where
  "residual_of target fdf = map2 cell_sub target (sum_axis1 fdf)"

definition add_changepoints :: "constants \<Rightarrow> string \<Rightarrow> frame \<Rightarrow> frame \<Rightarrow> pyerror + frame" where
  "add_changepoints k time_col fdf components =
     (let trend_cols = trend_cols_of k fdf in
      if trend_cols \<noteq> [] then
        (let changepoint_dates = changepoint_dates_from_cols k trend_cols in
         if changepoint_dates \<noteq> [] then
           (case getitem components time_col of
              Inl e \<Rightarrow> Inl e
            | Inr ts \<Rightarrow>
                Inr (setitem components ''trend_changepoints''
                       (map (\<lambda>t. case t of None \<Rightarrow> Some 0
                                  | Some v \<Rightarrow> if v \<in> set changepoint_dates then Some 1 else Some 0) ts)))
         else Inr components)
      else Inr components)"

definition get_silverkite_components ::
  "constants \<Rightarrow> frame \<Rightarrow> string \<Rightarrow> string \<Rightarrow> frame option \<Rightarrow> pyerror + frame" where
  "get_silverkite_components k df time_col value_col feature_df =
     (case feature_df of
        None \<Rightarrow> Inl (ValueError ''feature_df must be non-empty'')
      | Some fdf \<Rightarrow>
          if is_empty fdf then Inl (ValueError ''feature_df must be non-empty'')
          else if nrows df \<noteq> nrows fdf
          then Inl (ValueError ''df and feature_df must have same number of rows.'')
          else
            (case getitem_cols df [time_col, value_col] of
               Inl e \<Rightarrow> Inl e
             | Inr c0 \<Rightarrow>
                 (let c1 = add_trend k fdf c0;
                      c2 = add_lags k value_col fdf c1;
                      c3 = add_seasonalities k fdf c2;
                      c4 = add_events k fdf c3
                  in case getitem df value_col of
                       Inl e \<Rightarrow> Inl e
                     | Inr target \<Rightarrow>
                         add_changepoints k time_col fdf
                           (setitem c4 ''residual'' (residual_of target fdf)))))"

section \<open>\<^verbatim>\<open>group_silverkite_seas_components\<close>\<close>

text \<open>\<^verbatim>\<open>np.nanmean\<close>: the mean of the present cells, missing when there is none.\<close>

definition present :: "series \<Rightarrow> real list" where
  "present s = map the (filter (\<lambda>c. c \<noteq> None) s)"

definition nanmean :: "series \<Rightarrow> cell" where
  "nanmean s = (let ps = present s in if ps = [] then None else Some (sum_list ps / real (length ps)))"

text \<open>\<^verbatim>\<open>df[mask]\<close>: the rows where a boolean mask holds.\<close>

definition select_rows :: "frame \<Rightarrow> bool list \<Rightarrow> frame" where
  "select_rows f row_mask =
     \<lparr>nrows = length (filter id row_mask),
      cols = map (\<lambda>kc. (fst kc, map snd (filter fst (zip row_mask (snd kc))))) (cols f)\<rparr>"

text \<open>\<^verbatim>\<open>df.rename({old: new}, axis=1)\<close>\<close>

definition rename_col :: "frame \<Rightarrow> string \<Rightarrow> string \<Rightarrow> frame" where
  "rename_col f old new = f\<lparr>cols := map (\<lambda>kc. (if fst kc = old then new else fst kc, snd kc)) (cols f)\<rparr>"

text \<open>
  Modelled from the spec: \<^verbatim>\<open>add_groupby_column\<close> of
  \<^verbatim>\<open>greykite.common.viz.timeseries_plotting\<close> is not part of the source tree. It derives
  the grouping feature of each timestamp with the configured time-feature extractor, stores
  it in a column named after the feature, and returns the frame with that column's name.
\<close>

definition add_groupby_column :: "constants \<Rightarrow> frame \<Rightarrow> string \<Rightarrow> string \<Rightarrow> pyerror + frame \<times> string" where
  "add_groupby_column k df time_col feature =
     (case getitem df time_col of
        Inl e \<Rightarrow> Inl e
      | Inr ts \<Rightarrow> Inr (setitem df feature (map (map_option (time_feature k feature)) ts), feature))"

text \<open>
  Modelled from the spec: \<^verbatim>\<open>grouping_evaluation\<close> of
  \<^verbatim>\<open>greykite.common.viz.timeseries_plotting\<close> is not part of the source tree. It groups the
  rows by the value of the grouping column, one group per distinct value observed (rows
  whose grouping value is missing belong to no group), reduces each group with the grouping
  function and returns one row per group, the groups in increasing order of their value,
  the reduced column named by the last argument.
\<close>

definition grouping_evaluation ::
  "frame \<Rightarrow> string \<Rightarrow> (frame \<Rightarrow> cell) \<Rightarrow> string \<Rightarrow> pyerror + frame" where
  "grouping_evaluation df groupby_col grouping_func grouping_func_name =
     (case getitem df groupby_col of
        Inl e \<Rightarrow> Inl e
      | Inr gs \<Rightarrow>
          (let keys = sort (remdups (present gs)) in
           Inr \<lparr>nrows = length keys,
                cols = [(groupby_col, map Some keys),
                        (grouping_func_name,
                         map (\<lambda>key. grouping_func (select_rows df (map (\<lambda>g. g = Some key) gs))) keys)]\<rparr>))"

text \<open>
  The nested \<^verbatim>\<open>grouping_func\<close>: \<^verbatim>\<open>np.nanmean(grp[seas])\<close>. A group carries the labels of
  the frame it was cut from, \<^verbatim>\<open>seas\<close> among them.
\<close>

definition grouping_func :: "string \<Rightarrow> frame \<Rightarrow> cell" where
  "grouping_func seas grp = nanmean (case map_of (cols grp) seas of None \<Rightarrow> [] | Some s \<Rightarrow> s)"

definition group_silverkite_seas_components :: "constants \<Rightarrow> frame \<Rightarrow> pyerror + frame" where
  "group_silverkite_seas_components k df =
     (case columns df of
        [time_col, seas] \<Rightarrow>
          (case map_of (components_enum k) seas of
             None \<Rightarrow> Inl (KeyError seas)
           | Some sc \<Rightarrow>
               (case add_groupby_column k df time_col (groupby_time_feature sc) of
                  Inl e \<Rightarrow> Inl e
                | Inr result \<Rightarrow>
                    (case grouping_evaluation (fst result) (snd result) (grouping_func seas) (ylabel sc) of
                       Inl e \<Rightarrow> Inl e
                     | Inr grouped_df \<Rightarrow> Inr (rename_col grouped_df (snd result) (xlabel sc)))))
      | _ \<Rightarrow> Inl (ValueError ''wrong number of values to unpack''))"

section \<open>\<^verbatim>\<open>plot_silverkite_components\<close>\<close>

text \<open>
  The figure is what the function puts into it: one panel per row of the subplot grid, with
  its axis titles and its traces in the order they were appended.
\<close>

record trace =
  trace_name :: string
  trace_x :: series
  trace_y :: series
  trace_showlegend :: bool

record panel =
  xaxis_title :: string
  yaxis_title :: string
  traces :: "trace list"

record figure =
  fig_title :: string
  fig_height :: nat
  fig_panels :: "panel list"

text \<open>\<^verbatim>\<open>a, b = xs\<close>\<close>

definition unpack2 :: "'a list \<Rightarrow> pyerror + 'a \<times> 'a" where
  "unpack2 xs = (case xs of [a, b] \<Rightarrow> Inr (a, b) | _ \<Rightarrow> Inl (ValueError ''wrong number of values to unpack''))"

text \<open>A loop whose body may raise: the first error ends it.\<close>

fun map_result :: "('a \<Rightarrow> pyerror + 'b) \<Rightarrow> 'a list \<Rightarrow> pyerror + 'b list" where
  "map_result f [] = Inr []"
| "map_result f (x # xs) =
     (case f x of
        Inl e \<Rightarrow> Inl e
      | Inr y \<Rightarrow> (case map_result f xs of Inl e \<Rightarrow> Inl e | Inr ys \<Rightarrow> Inr (y # ys)))"

text \<open>\<^verbatim>\<open>xs.index(x)\<close> for an \<open>x\<close> that occurs in \<open>xs\<close>.\<close>

fun index_of :: "'a \<Rightarrow> 'a list \<Rightarrow> nat" where
  "index_of x [] = 0"
| "index_of x (y # ys) = (if x = y then 0 else Suc (index_of x ys))"

text \<open>\<^verbatim>\<open>series.min()\<close> and \<^verbatim>\<open>series.max()\<close> skip missing cells.\<close>

definition series_min :: "series \<Rightarrow> cell" where
  "series_min s = (case present s of [] \<Rightarrow> None | p # ps \<Rightarrow> Some (fold min ps p))"

definition series_max :: "series \<Rightarrow> cell" where
  "series_max s = (case present s of [] \<Rightarrow> None | p # ps \<Rightarrow> Some (fold max ps p))"

text \<open>Lines 367 to 371: the changepoint column is read, then dropped.\<close>

definition strip_changepoints :: "frame \<Rightarrow> string \<Rightarrow> pyerror + series option \<times> frame" where
  "strip_changepoints components time_col =
     (if ''trend_changepoints'' \<in> set (columns components) then
        (case getitem components time_col of
           Inl e \<Rightarrow> Inl e
         | Inr ts \<Rightarrow>
             (case getitem components ''trend_changepoints'' of
                Inl e \<Rightarrow> Inl e
              | Inr cps \<Rightarrow>
                  Inr (Some (map fst (filter (\<lambda>tc. snd tc = Some 1) (zip ts cps))),
                       drop_col components ''trend_changepoints'')))
      else Inr (None, components))"

text \<open>
  Lines 372 to 385: the names to plot, with the names the warning lists when one is emitted.
\<close>

definition names_kept_of ::
  "frame \<Rightarrow> string \<Rightarrow> string list option \<Rightarrow> pyerror + string list option \<times> string list" where
  "names_kept_of components value_col names =
     (case names of
        None \<Rightarrow> Inr (None, tl (columns components))
      | Some ns \<Rightarrow>
          (let names_kept = filter (\<lambda>component. component \<in> set ns) (columns components);
               names_removed = filter (\<lambda>n. n \<notin> set (columns components)) (remdups ns)
           in if names_kept = []
              then Inl (ValueError ''None of the provided components have been specified in the model.'')
              else Inr (if names_removed \<noteq> [] then Some names_removed else None,
                        if hd names_kept \<noteq> value_col then value_col # names_kept else names_kept)))"

text \<open>The body of the loop over \<^verbatim>\<open>names_kept\<close>.\<close>

definition render_panel :: "constants \<Rightarrow> frame \<Rightarrow> string \<Rightarrow> string \<Rightarrow> pyerror + panel" where
  "render_panel k components time_col name =
     (case getitem_cols components [time_col, name] of
        Inl e \<Rightarrow> Inl e
      | Inr df0 \<Rightarrow>
          (case (if str_contains ''SEASONALITY'' name
                 then group_silverkite_seas_components k df0 else Inr df0) of
             Inl e \<Rightarrow> Inl e
           | Inr df \<Rightarrow>
               (case unpack2 (columns df) of
                  Inl e \<Rightarrow> Inl e
                | Inr labels \<Rightarrow>
                    (case getitem df (fst labels) of
                       Inl e \<Rightarrow> Inl e
                     | Inr x \<Rightarrow>
                         (case getitem df (snd labels) of
                            Inl e \<Rightarrow> Inl e
                          | Inr y \<Rightarrow>
                              Inr \<lparr>xaxis_title = fst labels, yaxis_title = snd labels,
                                   traces = [\<lparr>trace_name = name, trace_x = x, trace_y = y,
                                              trace_showlegend = False\<rparr>]\<rparr>)))))"

text \<open>Lines 414 to 430: the changepoint markers, appended to the panel of the trend.\<close>

definition add_changepoint_traces ::
  "frame \<Rightarrow> series option \<Rightarrow> string list \<Rightarrow> panel list \<Rightarrow> pyerror + panel list" where
  "add_changepoint_traces components trend_changepoints names_kept ps =
     (case trend_changepoints of
        None \<Rightarrow> Inr ps
      | Some cps \<Rightarrow>
          if ''trend'' \<in> set names_kept then
            (case getitem components ''trend'' of
               Inl e \<Rightarrow> Inl e
             | Inr tr \<Rightarrow>
                 (let row = index_of ''trend'' names_kept;
                      marks = map (\<lambda>icp. \<lparr>trace_name = ''trend change point'',
                                           trace_x = [snd icp, snd icp],
                                           trace_y = [series_min tr, series_max tr],
                                           trace_showlegend = (fst icp = 0)\<rparr>) (enumerate 0 cps)
                  in Inr (ps[row := (ps ! row)\<lparr>traces := traces (ps ! row) @ marks\<rparr>])))
          else Inr ps)"

definition plot_silverkite_components ::
  "constants \<Rightarrow> frame \<Rightarrow> string list option \<Rightarrow> string option \<Rightarrow>
   pyerror + string list option \<times> figure" where
  "plot_silverkite_components k components names title =
     (case unpack2 (take 2 (columns components)) of
        Inl e \<Rightarrow> Inl e
      | Inr tv \<Rightarrow>
          (case strip_changepoints components (fst tv) of
             Inl e \<Rightarrow> Inl e
           | Inr stripped \<Rightarrow>
               (case names_kept_of (snd stripped) (snd tv) names of
                  Inl e \<Rightarrow> Inl e
                | Inr wk \<Rightarrow>
                    (let names_kept = snd wk; num_rows = length names_kept in
                     if num_rows = 0 then Inl ZeroDivisionError
                     else
                       (case map_result (render_panel k (snd stripped) (fst tv)) names_kept of
                          Inl e \<Rightarrow> Inl e
                        | Inr ps \<Rightarrow>
                            (case add_changepoint_traces (snd stripped) (fst stripped) names_kept ps of
                               Inl e \<Rightarrow> Inl e
                             | Inr ps' \<Rightarrow>
                                 Inr (fst wk,
                                      \<lparr>fig_title = (case title of None \<Rightarrow> ''Component plots'' | Some t \<Rightarrow> t),
                                       fig_height = 350 * num_rows,
                                       fig_panels = ps'\<rparr>)))))))"

text \<open>The name under which a panel was plotted: the name of its first trace.\<close>

definition panel_names :: "figure \<Rightarrow> string list" where
  "panel_names fig = map (\<lambda>p. trace_name (hd (traces p))) (fig_panels fig)"

section \<open>\<^verbatim>\<open>plot_components\<close>\<close>

text \<open>The attributes \<^verbatim>\<open>coef_\<close> (absent on models that are not linear) and \<^verbatim>\<open>intercept_\<close>.\<close>

record ml_model =
  coef :: "real list option"
  intercept :: real

record model_dict =
  x_mat :: frame
  df_dropna :: frame
  ml_model :: ml_model

text \<open>The attributes of the class that the plotting methods read and write.\<close>

record silverkite_diagnostics =
  self_time_col :: string
  self_value_col :: string
  self_components :: "frame option"

text \<open>
  Lines 155 to 166. \<^verbatim>\<open>ml_model_coef * x_mat\<close> scales column \<open>j\<close> by coefficient \<open>j\<close> and needs
  one coefficient per column. \<^verbatim>\<open>if ml_model_intercept\<close> holds for an intercept other than 0.
\<close>

definition x_mat_weighted_of :: "real list \<Rightarrow> real \<Rightarrow> frame \<Rightarrow> pyerror + frame" where
  "x_mat_weighted_of ml_model_coef ml_model_intercept xm =
     (if length ml_model_coef \<noteq> length (cols xm)
      then Inl (ValueError ''Unable to coerce to Series'')
      else
        (let data_len = nrows xm;
             ml_cols = columns xm;
             x_mat_weighted =
               xm\<lparr>cols := map (\<lambda>ckc. (fst (snd ckc), map (cell_scale (fst ckc)) (snd (snd ckc))))
                               (zip ml_model_coef (cols xm))\<rparr>
         in if ml_model_intercept \<noteq> 0 then
              (if ''Intercept'' \<in> set ml_cols then
                 (case getitem x_mat_weighted ''Intercept'' of
                    Inl e \<Rightarrow> Inl e
                  | Inr s \<Rightarrow>
                      Inr (setitem x_mat_weighted ''Intercept''
                             (map2 cell_add s (replicate data_len (Some ml_model_intercept)))))
               else Inr (setitem x_mat_weighted ''Intercept''
                           (replicate data_len (Some ml_model_intercept))))
            else Inr x_mat_weighted))"

definition plot_components ::
  "constants \<Rightarrow> silverkite_diagnostics \<Rightarrow> model_dict option \<Rightarrow> string list option \<Rightarrow> string option \<Rightarrow>
   silverkite_diagnostics \<times> (pyerror + string list option \<times> figure)" where
  "plot_components k self md names title =
     (case md of
        None \<Rightarrow> (self, Inl (NotImplementedError ''Call `self.set_params` before calling `plot_components`.''))
      | Some m \<Rightarrow>
          (case coef (ml_model m) of
             None \<Rightarrow> (self, Inl (NotImplementedError
                        ''Component plot has only been implemented for additive linear models.''))
           | Some ml_model_coef \<Rightarrow>
               (case x_mat_weighted_of ml_model_coef (intercept (ml_model m)) (x_mat m) of
                  Inl e \<Rightarrow> (self, Inl e)
                | Inr x_mat_weighted \<Rightarrow>
                    (case get_silverkite_components k (df_dropna m) (self_time_col self) (self_value_col self)
                            (Some x_mat_weighted) of
                       Inl e \<Rightarrow> (self, Inl e)
                     | Inr c \<Rightarrow>
                         (self\<lparr>self_components := Some c\<rparr>,
                          plot_silverkite_components k c names title)))))"

section \<open>Auxiliary definitions\<close>

text \<open>The columns of \<^verbatim>\<open>ml_model_coef * x_mat\<close>.\<close>

definition scaled_cols :: "real list \<Rightarrow> (string \<times> series) list \<Rightarrow> (string \<times> series) list" where
  "scaled_cols cf cs = map (\<lambda>ckc. (fst (snd ckc), map (cell_scale (fst ckc)) (snd (snd ckc)))) (zip cf cs)"


section \<open>A worked example\<close>

text \<open>
  A small configuration in which every pattern is a plain substring, three observations, and
  a weighted feature matrix with two trend columns (one of them a changepoint), one daily
  seasonality, an autoregressive lag, a lagged regressor, an event and the intercept.
\<close>

definition ex_constants :: constants where
  "ex_constants =
     \<lparr>TREND_REGEX = ''ct'', SEASONALITY_REGEX = ''sin'', LAG_REGEX = ''_lag'',
      EVENT_REGEX = ''events_'', re_match = str_contains,
      components_enum =
        [(''DAILY_SEASONALITY'',
           \<lparr>groupby_time_feature = ''tod'', xlabel = ''Time of day'', ylabel = ''daily''\<rparr>),
         (''WEEKLY_SEASONALITY'',
           \<lparr>groupby_time_feature = ''tow'', xlabel = ''Day of week'', ylabel = ''weekly''\<rparr>)],
      changepoint_dates_from_cols = (\<lambda>cs. if ''ct_cp2'' \<in> set cs then [2] else []),
      time_feature = (\<lambda>n t. if t = 2 then 0 else 1)\<rparr>"

definition ex_df :: frame where
  "ex_df = \<lparr>nrows = 3,
            cols = [(''ts'', [Some 1, Some 2, Some 3]), (''y'', [Some 10, Some 12, Some 9]),
                    (''x'', [Some 0, Some 0, Some 0])]\<rparr>"

definition ex_feature_df :: frame where
  "ex_feature_df = \<lparr>nrows = 3, cols =
      [(''ct1'', [Some 1, Some 1, Some 1]),
       (''ct_cp2'', [Some 0, Some 0, Some 1]),
       (''sin1_tod_daily'', [Some (1/2), Some (-1/2), Some (1/2)]),
       (''y_lag1'', [Some 2, Some 2, Some 2]),
       (''x_lag1'', [Some 0, Some 1, Some 0]),
       (''events_Xmas'', [Some 0, Some 0, Some 3]),
       (''Intercept'', [Some 1, Some 1, Some 1])]\<rparr>"

definition ex_components :: frame where
  "ex_components = \<lparr>nrows = 3, cols =
      [(''ts'', [Some 1, Some 2, Some 3]), (''y'', [Some 10, Some 12, Some 9]),
       (''trend'', [Some 1, Some 1, Some 2]),
       (''autoregression'', [Some 2, Some 2, Some 2]),
       (''lagged_regressor'', [Some 0, Some 1, Some 0]),
       (''DAILY_SEASONALITY'', [Some (1/2), Some (-1/2), Some (1/2)]),
       (''events'', [Some 0, Some 0, Some 3]),
       (''residual'', [Some (11/2), Some (15/2), Some (1/2)]),
       (''trend_changepoints'', [Some 0, Some 1, Some 0])]\<rparr>"








text \<open>A design matrix with an intercept column, and its weighted form for the coefficients
  2 and 3 and the intercept 1/2.\<close>

definition ex_x_mat :: frame where
  "ex_x_mat = \<lparr>nrows = 3, cols = [(''ct1'', [Some 1, Some 2, Some 3]),
                                  (''Intercept'', [Some 1, Some 1, Some 1])]\<rparr>"

definition ex_x_mat_weighted :: frame where
  "ex_x_mat_weighted = \<lparr>nrows = 3, cols = [(''ct1'', [Some 2, Some 4, Some 6]),
                                  (''Intercept'', [Some (7/2), Some (7/2), Some (7/2)])]\<rparr>"

definition ex_self :: silverkite_diagnostics where
  "ex_self = \<lparr>self_time_col = ''ts'', self_value_col = ''y'', self_components = None\<rparr>"

section \<open>Properties\<close>

subsection \<open>Assigning and reading columns\<close>

lemma columns_setitem:
  "columns (setitem f n s) = (if n \<in> set (columns f) then columns f else columns f @ [n])"
  by (auto simp: setitem_def columns_def intro: map_idI)

lemma nrows_setitem: "nrows (setitem f n s) = nrows f"
  by (simp add: setitem_def)

lemma map_of_replace:
  "map_of (map (\<lambda>kc. if fst kc = n then (n, s) else kc) xs) m =
     (if m = n \<and> n \<in> fst ` set xs then Some s else map_of xs m)"
proof (induction xs)
  case Nil
  show ?case by simp
next
  case (Cons x xs)
  show ?case
    using Cons.IH by (cases x) (fastforce simp: image_iff split: if_splits)
qed

lemma map_of_append_new:
  "n \<notin> fst ` set xs \<Longrightarrow> map_of (xs @ [(n, s)]) m = (if m = n then Some s else map_of xs m)"
  by (induction xs) (auto simp del: map_of_append)

lemma lookup_setitem:
  "map_of (cols (setitem f n s)) m = (if m = n then Some s else map_of (cols f) m)"
proof (cases "n \<in> set (columns f)")
  case True
  then show ?thesis
    by (simp add: setitem_def columns_def map_of_replace)
next
  case False
  then show ?thesis
    by (simp add: setitem_def columns_def map_of_append_new del: map_of_append)
qed

lemma getitem_setitem:
  "getitem (setitem f n s) m = (if m = n then Inr s else getitem f m)"
  by (simp add: getitem_def lookup_setitem)

subsection \<open>Steps keep what they do not assign\<close>







lemma add_changepoints_cases:
  assumes "add_changepoints k t fdf c = Inr c'"
  shows "c' = c \<or> (\<exists>s. c' = setitem c ''trend_changepoints'' s)"
  using assms by (auto simp: add_changepoints_def Let_def split: if_splits sum.splits)


text \<open>What a successful call went through.\<close>

lemma get_silverkite_components_InrE:
  assumes "get_silverkite_components k df t v (Some fdf) = Inr comps"
  obtains c0 target where
    "\<not> is_empty fdf" "nrows df = nrows fdf"
    "getitem_cols df [t, v] = Inr c0" "getitem df v = Inr target"
    "add_changepoints k t fdf
       (setitem (add_events k fdf (add_seasonalities k fdf (add_lags k v fdf (add_trend k fdf c0))))
          ''residual'' (residual_of target fdf)) = Inr comps"
  using assms
  by (auto simp: get_silverkite_components_def Let_def split: if_splits sum.splits)





subsection \<open>The residual\<close>



lemma set_columns_setitem: "set (columns (setitem f n s)) = insert n (set (columns f))"
  by (auto simp: columns_setitem)

lemma getitem_Inr_iff: "(\<exists>s. getitem f n = Inr s) \<longleftrightarrow> n \<in> set (columns f)"
proof -
  have "n \<in> set (columns f) \<longleftrightarrow> map_of (cols f) n \<noteq> None"
    by (simp add: columns_def map_of_eq_None_iff)
  then show ?thesis
    by (auto simp: getitem_def split: option.splits)
qed

lemma take2_setitem:
  "take 2 (columns f) = [a, b] \<Longrightarrow> take 2 (columns (setitem f n s)) = [a, b]"
proof -
  assume h: "take 2 (columns f) = [a, b]"
  then have "length (take 2 (columns f)) = 2" by simp
  then have "2 \<le> length (columns f)" by simp
  with h show ?thesis by (simp add: columns_setitem)
qed

lemma take2_add_trend:
  "take 2 (columns c) = [a, b] \<Longrightarrow> take 2 (columns (add_trend k fdf c)) = [a, b]"
  by (simp add: add_trend_def Let_def take2_setitem)

lemma take2_add_lags:
  "take 2 (columns c) = [a, b] \<Longrightarrow> take 2 (columns (add_lags k v fdf c)) = [a, b]"
  by (simp add: add_lags_def Let_def take2_setitem)

lemma take2_add_seas:
  "take 2 (columns c) = [a, b] \<Longrightarrow> take 2 (columns (add_seas k fdf m c)) = [a, b]"
  by (simp add: add_seas_def Let_def take2_setitem)

lemma take2_fold_add_seas:
  "take 2 (columns c) = [a, b] \<Longrightarrow> take 2 (columns (fold (add_seas k fdf) ms c)) = [a, b]"
  by (induction ms arbitrary: c) (simp_all add: take2_add_seas)

lemma take2_add_seasonalities:
  "take 2 (columns c) = [a, b] \<Longrightarrow> take 2 (columns (add_seasonalities k fdf c)) = [a, b]"
  by (simp add: add_seasonalities_def take2_fold_add_seas)

lemma take2_add_events:
  "take 2 (columns c) = [a, b] \<Longrightarrow> take 2 (columns (add_events k fdf c)) = [a, b]"
  by (simp add: add_events_def Let_def take2_setitem)

lemma take2_add_changepoints:
  assumes "add_changepoints k t fdf c = Inr c'" and "take 2 (columns c) = [a, b]"
  shows "take 2 (columns c') = [a, b]"
  using add_changepoints_cases[OF assms(1)] assms(2) by (auto simp: take2_setitem)

lemma filter_label_unique:
  "distinct (map fst xs) \<Longrightarrow> n \<in> fst ` set xs \<Longrightarrow> map fst (filter (\<lambda>kc. fst kc = n) xs) = [n]"
proof (induction xs)
  case Nil
  then show ?case by simp
next
  case (Cons x xs)
  show ?case
  proof (cases "fst x = n")
    case True
    with Cons.prems have "n \<notin> fst ` set xs" by auto
    then have "filter (\<lambda>kc. fst kc = n) xs = []"
      by (auto simp: filter_empty_conv)
    with True show ?thesis by simp
  next
    case False
    with Cons show ?thesis by auto
  qed
qed

lemma columns_getitem_cols2:
  assumes "wf_frame df" and "getitem_cols df [t, v] = Inr c0"
  shows "columns c0 = [t, v]"
proof -
  from assms(2) have mem: "t \<in> set (columns df)" "v \<in> set (columns df)" and c0: "c0 = select_cols df [t, v]"
    by (auto simp: getitem_cols_def split: if_splits)
  from assms(1) have d: "distinct (map fst (cols df))"
    by (simp add: wf_frame_def columns_def)
  from mem have "t \<in> fst ` set (cols df)" "v \<in> fst ` set (cols df)"
    by (simp_all add: columns_def)
  with d show ?thesis
    by (simp add: c0 select_cols_def columns_def filter_label_unique)
qed

subsection \<open>The first two columns\<close>

text \<open>
  Claim C10. For every input that \<^verbatim>\<open>get_silverkite_components\<close> accepts, the first column
  of the returned table is the time column and the second is the value column, in that
  order; \<^verbatim>\<open>plot_silverkite_components\<close> reads the two names from the first two positions
  (\<^verbatim>\<open>time_col, value_col = components.columns[:2]\<close>) and gets them back.
\<close>

theorem first_two_columns_are_time_and_value:
  assumes "get_silverkite_components k df time_col value_col (Some fdf) = Inr comps"
    and "wf_frame df"
  shows "take 2 (columns comps) = [time_col, value_col] \<and>
         unpack2 (take 2 (columns comps)) = Inr (time_col, value_col)"
proof -
  from assms(1) obtain c0 target where
    c0: "getitem_cols df [time_col, value_col] = Inr c0" and
    fin: "add_changepoints k time_col fdf
       (setitem (add_events k fdf (add_seasonalities k fdf (add_lags k value_col fdf (add_trend k fdf c0))))
          ''residual'' (residual_of target fdf)) = Inr comps"
    by (rule get_silverkite_components_InrE)
  have "take 2 (columns c0) = [time_col, value_col]"
    using columns_getitem_cols2[OF assms(2) c0] by simp
  then have "take 2 (columns (setitem (add_events k fdf (add_seasonalities k fdf
      (add_lags k value_col fdf (add_trend k fdf c0)))) ''residual'' (residual_of target fdf)))
      = [time_col, value_col]"
    by (intro take2_setitem take2_add_events take2_add_seasonalities take2_add_lags take2_add_trend)
  then have "take 2 (columns comps) = [time_col, value_col]"
    by (rule take2_add_changepoints[OF fin])
  then show ?thesis by (simp add: unpack2_def)
qed

theorem first_two_columns_are_time_and_value_witness:
  "get_silverkite_components ex_constants ex_df ''ts'' ''y'' (Some ex_feature_df) = Inr ex_components \<and>
   wf_frame ex_df \<and> take 2 (columns ex_components) = [''ts'', ''y''] \<and>
   unpack2 (take 2 (columns ex_components)) = Inr (''ts'', ''y'')"
proof -
  have run: "get_silverkite_components ex_constants ex_df ''ts'' ''y'' (Some ex_feature_df) = Inr ex_components"
    by code_simp
  have wf: "wf_frame ex_df" by code_simp
  from first_two_columns_are_time_and_value[OF run wf] run wf show ?thesis by blast
qed

lemma set_columns_add_trend:
  "set (columns (add_trend k fdf c)) =
     set (columns c) \<union> (if trend_cols_of k fdf \<noteq> [] then {''trend''} else {})"
  by (simp add: add_trend_def Let_def set_columns_setitem)

lemma set_columns_add_lags:
  "set (columns (add_lags k v fdf c)) =
     set (columns c) \<union> (if ar_cols_of k v fdf \<noteq> [] then {''autoregression''} else {})
       \<union> (if lagged_regressor_cols_of k v fdf \<noteq> [] then {''lagged_regressor''} else {})"
  by (auto simp: add_lags_def Let_def set_columns_setitem ar_cols_of_def lagged_regressor_cols_of_def)

lemma set_columns_add_seas:
  "set (columns (add_seas k fdf m c)) =
     set (columns c) \<union> (if seas_pattern_cols_of k fdf (snd m) \<noteq> [] then {fst m} else {})"
  by (simp add: add_seas_def Let_def set_columns_setitem)

lemma set_columns_fold_add_seas:
  "set (columns (fold (add_seas k fdf) ms c)) =
     set (columns c) \<union> fst ` {m \<in> set ms. seas_pattern_cols_of k fdf (snd m) \<noteq> []}"
  by (induction ms arbitrary: c) (auto simp: set_columns_add_seas)

lemma set_columns_add_seasonalities:
  "set (columns (add_seasonalities k fdf c)) =
     set (columns c) \<union> fst ` {m \<in> set (components_enum k). seas_pattern_cols_of k fdf (snd m) \<noteq> []}"
  by (simp add: add_seasonalities_def set_columns_fold_add_seas)

lemma set_columns_add_events:
  "set (columns (add_events k fdf c)) =
     set (columns c) \<union> (if event_cols_of k fdf \<noteq> [] then {''events''} else {})"
  by (simp add: add_events_def Let_def set_columns_setitem)

lemma set_columns_add_changepoints:
  assumes "add_changepoints k t fdf c = Inr c'"
  shows "set (columns c) \<subseteq> set (columns c') \<and> set (columns c') \<subseteq> insert ''trend_changepoints'' (set (columns c))"
  using add_changepoints_cases[OF assms] by (auto simp: set_columns_setitem)




subsection \<open>Error paths of the decomposition\<close>








lemma trend_cols_of_eq:
  "trend_cols_of k fdf =
     filter (\<lambda>c. re_match k (TREND_REGEX k) c \<and> \<not> re_match k (SEASONALITY_REGEX k) c \<and>
                 \<not> re_match k (LAG_REGEX k) c) (columns fdf)"
  by (simp add: trend_cols_of_def get_pattern_cols_def)

lemma lag_cols_of_eq:
  "lag_cols_of k fdf = filter (\<lambda>c. re_match k (LAG_REGEX k) c) (columns fdf)"
  by (simp add: lag_cols_of_def get_pattern_cols_def)

lemma ar_cols_of_eq:
  "ar_cols_of k v fdf =
     filter (\<lambda>c. re_match k (LAG_REGEX k) c \<and> str_contains v c) (columns fdf)"
  by (simp add: ar_cols_of_def lag_cols_of_eq conj_commute)

lemma lagged_regressor_cols_of_eq:
  "lagged_regressor_cols_of k v fdf =
     filter (\<lambda>c. re_match k (LAG_REGEX k) c \<and> \<not> str_contains v c) (columns fdf)"
  by (simp add: lagged_regressor_cols_of_def lag_cols_of_eq conj_commute)

lemma seas_pattern_cols_of_eq:
  "seas_pattern_cols_of k fdf sc =
     filter (\<lambda>c. re_match k (SEASONALITY_REGEX k) c \<and> re_match k (ylabel sc) c) (columns fdf)"
  by (simp add: seas_pattern_cols_of_def seas_cols_of_def get_pattern_cols_def conj_commute)

lemma event_cols_of_eq:
  "event_cols_of k fdf = filter (\<lambda>c. re_match k (EVENT_REGEX k) c) (columns fdf)"
  by (simp add: event_cols_of_def get_pattern_cols_def)





subsection \<open>The trend column\<close>


subsection \<open>Autoregression and lagged regressors\<close>


lemma set_columns_select_cols: "set (columns (select_cols f ns)) = set ns \<inter> set (columns f)"
  by (auto simp: select_cols_def columns_def)

lemma set_columns_setitem_Un: "set (columns (setitem f n s)) = set (columns f) \<union> {n}"
  by (simp add: set_columns_setitem)

lemma set_columns_result:
  assumes "get_silverkite_components k df t v (Some fdf) = Inr comps"
  defines "base \<equiv> {t, v} \<union> (if trend_cols_of k fdf \<noteq> [] then {''trend''} else {})
       \<union> (if ar_cols_of k v fdf \<noteq> [] then {''autoregression''} else {})
       \<union> (if lagged_regressor_cols_of k v fdf \<noteq> [] then {''lagged_regressor''} else {})
       \<union> fst ` {m \<in> set (components_enum k). seas_pattern_cols_of k fdf (snd m) \<noteq> []}
       \<union> (if event_cols_of k fdf \<noteq> [] then {''events''} else {})
       \<union> {''residual''}"
  shows "base \<subseteq> set (columns comps) \<and> set (columns comps) \<subseteq> insert ''trend_changepoints'' base"
proof -
  from assms(1) obtain c0 target where
    c0: "getitem_cols df [t, v] = Inr c0" and
    fin: "add_changepoints k t fdf
       (setitem (add_events k fdf (add_seasonalities k fdf (add_lags k v fdf (add_trend k fdf c0))))
          ''residual'' (residual_of target fdf)) = Inr comps"
    by (rule get_silverkite_components_InrE)
  from c0 have "set (columns c0) = {t, v}"
    by (auto simp: getitem_cols_def set_columns_select_cols split: if_splits)
  then have "set (columns (setitem (add_events k fdf (add_seasonalities k fdf
      (add_lags k v fdf (add_trend k fdf c0)))) ''residual'' (residual_of target fdf))) = base"
    unfolding base_def
    by (simp only: set_columns_setitem_Un set_columns_add_events set_columns_add_seasonalities
        set_columns_add_lags set_columns_add_trend)
  with set_columns_add_changepoints[OF fin] show ?thesis by simp
qed

lemma enum_member_unique:
  assumes "distinct (map fst ms)" and "m \<in> set ms" and "m' \<in> set ms" and "fst m' = fst m"
  shows "m' = m"
  using assms by (metis distinct_map inj_onD)

subsection \<open>Presence of the semantic columns\<close>

text \<open>
  Claim C4. For a valid input (the time and value columns do not carry a reserved component
  name, and the seasonality keys are distinct and differ from the other reserved names), each
  of \<^verbatim>\<open>trend\<close>, \<^verbatim>\<open>autoregression\<close>, \<^verbatim>\<open>lagged_regressor\<close>, every seasonality key and
  \<^verbatim>\<open>events\<close> is a column of the returned table if and only if some feature column name
  matches the classification of that category; an absent category gives no column at all.
\<close>

theorem semantic_column_present_iff_matched:
  assumes run: "get_silverkite_components k df time_col value_col (Some fdf) = Inr comps"
    and tv: "{time_col, value_col} \<inter>
             ({''trend'', ''autoregression'', ''lagged_regressor'', ''events''} \<union> fst ` set (components_enum k)) = {}"
    and enum: "fst ` set (components_enum k) \<inter>
             {''trend'', ''autoregression'', ''lagged_regressor'', ''events'', ''residual'',
              ''trend_changepoints''} = {}"
    and dist: "distinct (map fst (components_enum k))"
  shows "(''trend'' \<in> set (columns comps) \<longleftrightarrow>
            (\<exists>c\<in>set (columns fdf). re_match k (TREND_REGEX k) c \<and> \<not> re_match k (SEASONALITY_REGEX k) c \<and>
                                     \<not> re_match k (LAG_REGEX k) c)) \<and>
         (''autoregression'' \<in> set (columns comps) \<longleftrightarrow>
            (\<exists>c\<in>set (columns fdf). re_match k (LAG_REGEX k) c \<and> str_contains value_col c)) \<and>
         (''lagged_regressor'' \<in> set (columns comps) \<longleftrightarrow>
            (\<exists>c\<in>set (columns fdf). re_match k (LAG_REGEX k) c \<and> \<not> str_contains value_col c)) \<and>
         (\<forall>m\<in>set (components_enum k).
            fst m \<in> set (columns comps) \<longleftrightarrow>
            (\<exists>c\<in>set (columns fdf). re_match k (SEASONALITY_REGEX k) c \<and> re_match k (ylabel (snd m)) c)) \<and>
         (''events'' \<in> set (columns comps) \<longleftrightarrow>
            (\<exists>c\<in>set (columns fdf). re_match k (EVENT_REGEX k) c))"
proof -
  define base where "base = {time_col, value_col} \<union> (if trend_cols_of k fdf \<noteq> [] then {''trend''} else {})
       \<union> (if ar_cols_of k value_col fdf \<noteq> [] then {''autoregression''} else {})
       \<union> (if lagged_regressor_cols_of k value_col fdf \<noteq> [] then {''lagged_regressor''} else {})
       \<union> fst ` {m \<in> set (components_enum k). seas_pattern_cols_of k fdf (snd m) \<noteq> []}
       \<union> (if event_cols_of k fdf \<noteq> [] then {''events''} else {})
       \<union> {''residual''}"
  have bounds: "base \<subseteq> set (columns comps)" "set (columns comps) \<subseteq> insert ''trend_changepoints'' base"
    using set_columns_result[OF run] unfolding base_def by simp_all
  have mem: "n \<in> set (columns comps) \<longleftrightarrow> n \<in> base" if "n \<noteq> ''trend_changepoints''" for n
    using bounds that by auto
  have tv': "time_col \<noteq> ''trend''" "value_col \<noteq> ''trend''"
    "time_col \<noteq> ''autoregression''" "value_col \<noteq> ''autoregression''"
    "time_col \<noteq> ''lagged_regressor''" "value_col \<noteq> ''lagged_regressor''"
    "time_col \<noteq> ''events''" "value_col \<noteq> ''events''"
    "time_col \<notin> fst ` set (components_enum k)" "value_col \<notin> fst ` set (components_enum k)"
    using tv by auto
  have enum': "''trend'' \<notin> fst ` set (components_enum k)"
    "''autoregression'' \<notin> fst ` set (components_enum k)"
    "''lagged_regressor'' \<notin> fst ` set (components_enum k)"
    "''events'' \<notin> fst ` set (components_enum k)"
    "''residual'' \<notin> fst ` set (components_enum k)"
    "''trend_changepoints'' \<notin> fst ` set (components_enum k)"
    using enum by auto
  have notin: "n \<notin> fst ` {m \<in> set (components_enum k). seas_pattern_cols_of k fdf (snd m) \<noteq> []}"
    if "n \<notin> fst ` set (components_enum k)" for n
    using that by auto
  have trend: "''trend'' \<in> set (columns comps) \<longleftrightarrow> trend_cols_of k fdf \<noteq> []"
    using mem[of "''trend''"] tv'(1,2) notin[OF enum'(1)] by (simp add: base_def)
  have ar: "''autoregression'' \<in> set (columns comps) \<longleftrightarrow> ar_cols_of k value_col fdf \<noteq> []"
    using mem[of "''autoregression''"] tv'(3,4) notin[OF enum'(2)] by (simp add: base_def)
  have lr: "''lagged_regressor'' \<in> set (columns comps) \<longleftrightarrow> lagged_regressor_cols_of k value_col fdf \<noteq> []"
    using mem[of "''lagged_regressor''"] tv'(5,6) notin[OF enum'(3)] by (simp add: base_def)
  have ev: "''events'' \<in> set (columns comps) \<longleftrightarrow> event_cols_of k fdf \<noteq> []"
    using mem[of "''events''"] tv'(7,8) notin[OF enum'(4)] by (simp add: base_def)
  have seas: "fst m \<in> set (columns comps) \<longleftrightarrow> seas_pattern_cols_of k fdf (snd m) \<noteq> []"
    if m: "m \<in> set (components_enum k)" for m
  proof -
    from m have in_enum: "fst m \<in> fst ` set (components_enum k)" by simp
    then have diff: "fst m \<noteq> x" if "x \<notin> fst ` set (components_enum k)" for x
      using that by blast
    have ne: "fst m \<noteq> ''trend_changepoints''" "fst m \<noteq> ''trend''"
      "fst m \<noteq> ''autoregression''" "fst m \<noteq> ''lagged_regressor''" "fst m \<noteq> ''events''"
      "fst m \<noteq> ''residual''" "fst m \<noteq> time_col" "fst m \<noteq> value_col"
      by (rule diff, fact)+
    have "fst m \<in> fst ` {m' \<in> set (components_enum k). seas_pattern_cols_of k fdf (snd m') \<noteq> []}
          \<longleftrightarrow> seas_pattern_cols_of k fdf (snd m) \<noteq> []"
    proof
      assume "fst m \<in> fst ` {m' \<in> set (components_enum k). seas_pattern_cols_of k fdf (snd m') \<noteq> []}"
      then obtain m' where m': "m' \<in> set (components_enum k)" "seas_pattern_cols_of k fdf (snd m') \<noteq> []"
        "fst m' = fst m" by auto
      from enum_member_unique[OF dist m m'(1) m'(3)] m'(2) show "seas_pattern_cols_of k fdf (snd m) \<noteq> []"
        by simp
    next
      assume "seas_pattern_cols_of k fdf (snd m) \<noteq> []"
      with m show "fst m \<in> fst ` {m' \<in> set (components_enum k). seas_pattern_cols_of k fdf (snd m') \<noteq> []}"
        by blast
    qed
    with mem[OF ne(1)] ne show ?thesis by (simp add: base_def)
  qed
  show ?thesis
    using trend ar lr ev seas
    by (simp add: trend_cols_of_eq ar_cols_of_eq lagged_regressor_cols_of_eq event_cols_of_eq
        seas_pattern_cols_of_eq filter_empty_conv)
qed

lemma ex_run:
  "get_silverkite_components ex_constants ex_df ''ts'' ''y'' (Some ex_feature_df) = Inr ex_components"
  by code_simp


lemma ex_enum_names:
  "fst ` set (components_enum ex_constants) = {''DAILY_SEASONALITY'', ''WEEKLY_SEASONALITY''}"
  by (simp add: ex_constants_def)



theorem semantic_column_present_iff_matched_witness:
  "get_silverkite_components ex_constants ex_df ''ts'' ''y'' (Some ex_feature_df) = Inr ex_components \<and>
   {''ts'', ''y''} \<inter> ({''trend'', ''autoregression'', ''lagged_regressor'', ''events''} \<union>
       fst ` set (components_enum ex_constants)) = {} \<and>
   fst ` set (components_enum ex_constants) \<inter>
       {''trend'', ''autoregression'', ''lagged_regressor'', ''events'', ''residual'', ''trend_changepoints''} = {} \<and>
   distinct (map fst (components_enum ex_constants)) \<and>
   ''trend'' \<in> set (columns ex_components) \<and>
   ''autoregression'' \<in> set (columns ex_components) \<and>
   ''lagged_regressor'' \<in> set (columns ex_components) \<and>
   ''DAILY_SEASONALITY'' \<in> set (columns ex_components) \<and>
   ''WEEKLY_SEASONALITY'' \<notin> set (columns ex_components) \<and>
   ''events'' \<in> set (columns ex_components)"
proof -
  have h1: "{''ts'', ''y''} \<inter> ({''trend'', ''autoregression'', ''lagged_regressor'', ''events''} \<union>
       fst ` set (components_enum ex_constants)) = {}"
    by (simp add: ex_enum_names)
  have h2: "fst ` set (components_enum ex_constants) \<inter>
       {''trend'', ''autoregression'', ''lagged_regressor'', ''events'', ''residual'', ''trend_changepoints''} = {}"
    by (simp add: ex_enum_names)
  have h3: "distinct (map fst (components_enum ex_constants))"
    by (simp add: ex_constants_def)
  note t = semantic_column_present_iff_matched[OF ex_run h1 h2 h3]
  have m: "(''DAILY_SEASONALITY'',
           \<lparr>groupby_time_feature = ''tod'', xlabel = ''Time of day'', ylabel = ''daily''\<rparr>)
           \<in> set (components_enum ex_constants)"
    "(''WEEKLY_SEASONALITY'',
           \<lparr>groupby_time_feature = ''tow'', xlabel = ''Day of week'', ylabel = ''weekly''\<rparr>)
           \<in> set (components_enum ex_constants)"
    by (simp_all add: ex_constants_def)
  have p: "\<exists>c\<in>set (columns ex_feature_df). re_match ex_constants (TREND_REGEX ex_constants) c \<and>
        \<not> re_match ex_constants (SEASONALITY_REGEX ex_constants) c \<and> \<not> re_match ex_constants (LAG_REGEX ex_constants) c"
    "\<exists>c\<in>set (columns ex_feature_df). re_match ex_constants (LAG_REGEX ex_constants) c \<and> str_contains ''y'' c"
    "\<exists>c\<in>set (columns ex_feature_df). re_match ex_constants (LAG_REGEX ex_constants) c \<and> \<not> str_contains ''y'' c"
    "\<exists>c\<in>set (columns ex_feature_df). re_match ex_constants (SEASONALITY_REGEX ex_constants) c \<and>
        re_match ex_constants ''daily'' c"
    "\<not> (\<exists>c\<in>set (columns ex_feature_df). re_match ex_constants (SEASONALITY_REGEX ex_constants) c \<and>
        re_match ex_constants ''weekly'' c)"
    "\<exists>c\<in>set (columns ex_feature_df). re_match ex_constants (EVENT_REGEX ex_constants) c"
    by code_simp+
  from t p(1) have 1: "''trend'' \<in> set (columns ex_components)" by blast
  from t p(2) have 2: "''autoregression'' \<in> set (columns ex_components)" by blast
  from t p(3) have 3: "''lagged_regressor'' \<in> set (columns ex_components)" by blast
  from t have s: "\<forall>m\<in>set (components_enum ex_constants).
            fst m \<in> set (columns ex_components) \<longleftrightarrow>
            (\<exists>c\<in>set (columns ex_feature_df). re_match ex_constants (SEASONALITY_REGEX ex_constants) c \<and>
               re_match ex_constants (ylabel (snd m)) c)" by blast
  from bspec[OF s m(1)] p(4) have 4: "''DAILY_SEASONALITY'' \<in> set (columns ex_components)" by simp
  from bspec[OF s m(2)] p(5) have 5: "''WEEKLY_SEASONALITY'' \<notin> set (columns ex_components)" by simp
  from t p(6) have 6: "''events'' \<in> set (columns ex_components)" by blast
  from ex_run h1 h2 h3 1 2 3 4 5 6 show ?thesis by blast
qed

lemma map_fst_scaled_cols:
  "length cf = length cs \<Longrightarrow> map fst (scaled_cols cf cs) = map fst cs"
  by (induction cf cs rule: list_induct2) (simp_all add: scaled_cols_def)

lemma length_scaled_cols: "length cf = length cs \<Longrightarrow> length (scaled_cols cf cs) = length cs"
  by (simp add: scaled_cols_def)

lemma nth_scaled_cols:
  "length cf = length cs \<Longrightarrow> j < length cs \<Longrightarrow>
   scaled_cols cf cs ! j = (fst (cs ! j), map (cell_scale (cf ! j)) (snd (cs ! j)))"
  by (simp add: scaled_cols_def)

lemma map_of_nth_distinct:
  assumes "distinct (map fst xs)" and "j < length xs"
  shows "map_of xs (fst (xs ! j)) = Some (snd (xs ! j))"
proof -
  from assms(2) have "(fst (xs ! j), snd (xs ! j)) \<in> set xs" by simp
  with assms(1) show ?thesis by (rule map_of_is_SomeI)
qed

lemma map_of_scaled_cols:
  assumes "distinct (map fst cs)" and "length cf = length cs" and "j < length cs"
  shows "map_of (scaled_cols cf cs) (fst (cs ! j)) = Some (map (cell_scale (cf ! j)) (snd (cs ! j)))"
proof -
  have d: "distinct (map fst (scaled_cols cf cs))"
    using assms(1,2) by (simp add: map_fst_scaled_cols)
  have j: "j < length (scaled_cols cf cs)"
    using assms(2,3) by (simp add: length_scaled_cols)
  from map_of_nth_distinct[OF d j] show ?thesis
    using assms(2,3) by (simp add: nth_scaled_cols)
qed

lemma lengths_scaled_cols:
  assumes "list_all (\<lambda>kc. length (snd kc) = n) cs"
  shows "list_all (\<lambda>kc. length (snd kc) = n) (scaled_cols cf cs)"
  using assms by (auto simp: scaled_cols_def list_all_iff dest!: set_zip_rightD)

lemma wf_scaled:
  assumes "wf_frame xm" and "length cf = length (cols xm)"
  shows "wf_frame (xm\<lparr>cols := scaled_cols cf (cols xm)\<rparr>)"
  using assms by (simp add: wf_frame_def columns_def map_fst_scaled_cols lengths_scaled_cols)

lemma wf_setitem:
  assumes "wf_frame f" and "length s = nrows f"
  shows "wf_frame (setitem f n s)"
proof -
  from assms have "list_all (\<lambda>kc. length (snd kc) = nrows f) (cols (setitem f n s))"
    by (auto simp: wf_frame_def setitem_def list_all_iff)
  moreover from assms(1) have "distinct (columns (setitem f n s))"
    by (simp add: wf_frame_def columns_setitem)
  ultimately show ?thesis by (simp add: wf_frame_def nrows_setitem)
qed

lemma map2_replicate:
  "length s = n \<Longrightarrow> map2 cell_add s (replicate n b) = map (\<lambda>c. cell_add c b) s"
  by (induction s arbitrary: n) auto

lemma x_mat_weighted_of_unfold:
  "x_mat_weighted_of cf b xm =
     (if length cf \<noteq> length (cols xm) then Inl (ValueError ''Unable to coerce to Series'')
      else if b \<noteq> 0 then
        (if ''Intercept'' \<in> set (columns xm) then
           (case getitem (xm\<lparr>cols := scaled_cols cf (cols xm)\<rparr>) ''Intercept'' of
              Inl e \<Rightarrow> Inl e
            | Inr s \<Rightarrow> Inr (setitem (xm\<lparr>cols := scaled_cols cf (cols xm)\<rparr>) ''Intercept''
                             (map2 cell_add s (replicate (nrows xm) (Some b)))))
         else Inr (setitem (xm\<lparr>cols := scaled_cols cf (cols xm)\<rparr>) ''Intercept''
                     (replicate (nrows xm) (Some b))))
      else Inr (xm\<lparr>cols := scaled_cols cf (cols xm)\<rparr>))"
  by (simp add: x_mat_weighted_of_def scaled_cols_def Let_def cong: sum.case_cong)

lemma weighted_feature_matrix:
  assumes wf: "wf_frame xm" and len: "length cf = length (cols xm)"
  shows "\<exists>w. x_mat_weighted_of cf b xm = Inr w \<and> nrows w = nrows xm \<and> wf_frame w \<and>
           columns w = (if b \<noteq> 0 \<and> ''Intercept'' \<notin> set (columns xm)
                        then columns xm @ [''Intercept''] else columns xm) \<and>
           (\<forall>j<length (cols xm).
              getitem w (fst (cols xm ! j)) =
                Inr (if b \<noteq> 0 \<and> fst (cols xm ! j) = ''Intercept''
                     then map (\<lambda>c. cell_add (cell_scale (cf ! j) c) (Some b)) (snd (cols xm ! j))
                     else map (cell_scale (cf ! j)) (snd (cols xm ! j)))) \<and>
           (b \<noteq> 0 \<and> ''Intercept'' \<notin> set (columns xm) \<longrightarrow>
              getitem w ''Intercept'' = Inr (replicate (nrows xm) (Some b)))"
proof -
  define sc where "sc = xm\<lparr>cols := scaled_cols cf (cols xm)\<rparr>"
  have d: "distinct (map fst (cols xm))" using wf by (simp add: wf_frame_def columns_def)
  have wf_sc: "wf_frame sc" unfolding sc_def by (rule wf_scaled[OF wf len])
  have cols_sc: "columns sc = columns xm"
    by (simp add: sc_def columns_def map_fst_scaled_cols[OF len])
  have nrows_sc: "nrows sc = nrows xm" by (simp add: sc_def)
  have get_sc: "getitem sc (fst (cols xm ! j)) = Inr (map (cell_scale (cf ! j)) (snd (cols xm ! j)))"
    if "j < length (cols xm)" for j
    using map_of_scaled_cols[OF d len that] by (simp add: getitem_def sc_def)
  have len_col: "length (snd (cols xm ! j)) = nrows xm" if "j < length (cols xm)" for j
    using wf that by (auto simp: wf_frame_def list_all_iff)
  show ?thesis
  proof (cases "b = 0")
    case True
    then have "x_mat_weighted_of cf b xm = Inr sc"
      using len by (simp add: x_mat_weighted_of_unfold sc_def)
    with True wf_sc cols_sc nrows_sc get_sc show ?thesis by simp
  next
    case b: False
    show ?thesis
    proof (cases "''Intercept'' \<in> set (columns xm)")
      case True
      then obtain i where i: "i < length (cols xm)" "fst (cols xm ! i) = ''Intercept''"
        by (auto simp: columns_def in_set_conv_nth)
      define s where "s = map (cell_scale (cf ! i)) (snd (cols xm ! i))"
      have gs: "getitem sc ''Intercept'' = Inr s"
        using get_sc[OF i(1)] i(2) by (simp add: s_def)
      have ls: "length s = nrows xm" using len_col[OF i(1)] by (simp add: s_def)
      define w where "w = setitem sc ''Intercept'' (map (\<lambda>c. cell_add c (Some b)) s)"
      have run: "x_mat_weighted_of cf b xm = Inr w"
        using len b True gs ls
        by (simp add: x_mat_weighted_of_unfold sc_def[symmetric] w_def map2_replicate)
      have wfw: "wf_frame w" unfolding w_def
        by (rule wf_setitem[OF wf_sc]) (simp add: ls nrows_sc)
      have colsw: "columns w = columns xm"
        using True by (simp add: w_def columns_setitem cols_sc)
      have getw: "getitem w (fst (cols xm ! j)) =
                Inr (if b \<noteq> 0 \<and> fst (cols xm ! j) = ''Intercept''
                     then map (\<lambda>c. cell_add (cell_scale (cf ! j) c) (Some b)) (snd (cols xm ! j))
                     else map (cell_scale (cf ! j)) (snd (cols xm ! j)))"
        if j: "j < length (cols xm)" for j
      proof (cases "fst (cols xm ! j) = ''Intercept''")
        case T: True
        with i j d have "j = i"
          by (metis distinct_conv_nth length_map nth_map)
        with T b show ?thesis
          by (simp add: w_def getitem_setitem s_def comp_def)
      next
        case False
        with get_sc[OF j] show ?thesis
          by (simp add: w_def getitem_setitem)
      qed
      from run wfw colsw getw b True show ?thesis
        by (simp add: w_def nrows_setitem nrows_sc)
    next
      case False
      define w where "w = setitem sc ''Intercept'' (replicate (nrows xm) (Some b))"
      have run: "x_mat_weighted_of cf b xm = Inr w"
        using len b False by (simp add: x_mat_weighted_of_unfold sc_def[symmetric] w_def)
      have wfw: "wf_frame w" unfolding w_def
        by (rule wf_setitem[OF wf_sc]) (simp add: nrows_sc)
      have colsw: "columns w = columns xm @ [''Intercept'']"
        using False by (simp add: w_def columns_setitem cols_sc)
      have ne: "fst (cols xm ! j) \<noteq> ''Intercept''" if j: "j < length (cols xm)" for j
      proof -
        from j have "fst (cols xm ! j) \<in> set (columns xm)" by (simp add: columns_def)
        with False show ?thesis by metis
      qed
      have getw: "getitem w (fst (cols xm ! j)) = Inr (map (cell_scale (cf ! j)) (snd (cols xm ! j)))"
        if j: "j < length (cols xm)" for j
        using get_sc[OF j] ne[OF j] by (simp add: w_def getitem_setitem)
      have geti: "getitem w ''Intercept'' = Inr (replicate (nrows xm) (Some b))"
        by (simp add: w_def getitem_setitem)
      from run wfw colsw getw geti b False ne show ?thesis
        by (simp add: w_def nrows_setitem nrows_sc)
    qed
  qed
qed










subsection \<open>Regrouping a seasonality\<close>



lemma map_result_Inr:
  assumes "map_result f xs = Inr ys" and "\<And>x y. f x = Inr y \<Longrightarrow> g y = x"
  shows "map g ys = xs"
  using assms(1)
proof (induction xs arbitrary: ys)
  case Nil
  then show ?case by simp
next
  case (Cons x xs)
  then show ?case
    by (auto simp: assms(2) split: sum.splits)
qed

lemma map_result_succeeds:
  assumes "\<And>x. x \<in> set xs \<Longrightarrow> \<exists>y. f x = Inr y"
  shows "\<exists>ys. map_result f xs = Inr ys"
  using assms
proof (induction xs)
  case Nil
  show ?case by simp
next
  case (Cons x xs)
  from Cons.prems[of x] obtain y where y: "f x = Inr y" by auto
  from Cons.IH Cons.prems obtain ys where "map_result f xs = Inr ys" by auto
  with y show ?case by simp
qed

lemma render_panel_name:
  assumes "render_panel k c t name = Inr p"
  shows "map trace_name (traces p) = [name]"
  using assms by (auto simp: render_panel_def split: sum.splits if_splits)

lemma columns_drop_col: "columns (drop_col f n) = filter (\<lambda>c. c \<noteq> n) (columns f)"
  by (simp add: drop_col_def columns_def filter_map comp_def)

lemma wf_drop_col:
  assumes "wf_frame f"
  shows "wf_frame (drop_col f n)"
proof -
  from assms have "distinct (columns (drop_col f n))"
    by (simp add: wf_frame_def columns_drop_col)
  moreover from assms have "list_all (\<lambda>kc. length (snd kc) = nrows (drop_col f n)) (cols (drop_col f n))"
    by (auto simp: wf_frame_def drop_col_def list_all_iff)
  ultimately show ?thesis by (simp add: wf_frame_def)
qed

lemma drop_col_absent: "n \<notin> set (columns f) \<Longrightarrow> drop_col f n = f"
proof -
  assume "n \<notin> set (columns f)"
  then have "filter (\<lambda>kc. fst kc \<noteq> n) (cols f) = cols f"
    by (auto simp: columns_def filter_id_conv)
  then show ?thesis by (simp add: drop_col_def)
qed

lemma strip_changepoints_Inr:
  assumes "t \<in> set (columns f)"
  shows "\<exists>cps. strip_changepoints f t = Inr (cps, drop_col f ''trend_changepoints'') \<and>
               (cps = None \<longleftrightarrow> ''trend_changepoints'' \<notin> set (columns f))"
proof (cases "''trend_changepoints'' \<in> set (columns f)")
  case True
  from assms obtain ts where ts: "getitem f t = Inr ts" using getitem_Inr_iff by blast
  from True obtain cps where cps: "getitem f ''trend_changepoints'' = Inr cps"
    using getitem_Inr_iff by blast
  from True ts cps show ?thesis by (simp add: strip_changepoints_def)
next
  case False
  then show ?thesis by (simp add: strip_changepoints_def drop_col_absent)
qed

lemma columns_select_two:
  assumes "wf_frame f" and "a \<in> set (columns f)" and "b \<in> set (columns f)"
  shows "columns (select_cols f [a, b]) = [a, b]"
proof -
  have "getitem_cols f [a, b] = Inr (select_cols f [a, b])"
    using assms(2,3) by (simp add: getitem_cols_def)
  from columns_getitem_cols2[OF assms(1) this] show ?thesis .
qed

lemma group_succeeds:
  assumes "columns df = [tc, seas]" and "seas \<in> fst ` set (components_enum k)"
  shows "\<exists>g a b. group_silverkite_seas_components k df = Inr g \<and> columns g = [a, b]"
proof -
  from assms(2) obtain sc where sc: "map_of (components_enum k) seas = Some sc"
    by (metis map_of_eq_None_iff not_Some_eq)
  from assms(1) have "tc \<in> set (columns df)" by simp
  then obtain ts where ts: "getitem df tc = Inr ts" using getitem_Inr_iff by blast
  define feat where "feat = groupby_time_feature sc"
  define df1 where "df1 = setitem df feat (map (map_option (time_feature k feat)) ts)"
  have agc: "add_groupby_column k df tc feat = Inr (df1, feat)"
    using ts by (simp add: add_groupby_column_def df1_def)
  have gg: "getitem df1 feat = Inr (map (map_option (time_feature k feat)) ts)"
    by (simp add: df1_def getitem_setitem)
  then obtain gdf where ge: "grouping_evaluation df1 feat (grouping_func seas) (ylabel sc) = Inr gdf"
    and cg: "columns gdf = [feat, ylabel sc]"
    by (simp add: grouping_evaluation_def Let_def columns_def)
  have "group_silverkite_seas_components k df = Inr (rename_col gdf feat (xlabel sc))"
    using assms(1) sc agc ge
    by (simp add: group_silverkite_seas_components_def feat_def[symmetric])
  moreover have "\<exists>a b. columns (rename_col gdf feat (xlabel sc)) = [a, b]"
    using cg by (auto simp: rename_col_def columns_def)
  ultimately show ?thesis by blast
qed

lemma render_two_columns:
  assumes "columns df = [a, b]"
  shows "\<exists>x y. unpack2 (columns df) = Inr (a, b) \<and> getitem df a = Inr x \<and> getitem df b = Inr y"
proof -
  from assms have "a \<in> set (columns df)" "b \<in> set (columns df)" by simp_all
  then obtain x y where "getitem df a = Inr x" "getitem df b = Inr y"
    using getitem_Inr_iff by blast
  with assms show ?thesis by (simp add: unpack2_def)
qed

lemma render_panel_succeeds:
  assumes wf: "wf_frame c" and t: "t \<in> set (columns c)" and n: "name \<in> set (columns c)"
    and seas: "str_contains ''SEASONALITY'' name \<Longrightarrow> name \<in> fst ` set (components_enum k)"
  shows "\<exists>p. render_panel k c t name = Inr p"
proof -
  have sel: "getitem_cols c [t, name] = Inr (select_cols c [t, name])"
    using t n by (simp add: getitem_cols_def)
  have cs: "columns (select_cols c [t, name]) = [t, name]"
    by (rule columns_select_two[OF wf t n])
  show ?thesis
  proof (cases "str_contains ''SEASONALITY'' name")
    case True
    from group_succeeds[OF cs seas[OF True]] obtain g a b where
      g: "group_silverkite_seas_components k (select_cols c [t, name]) = Inr g" "columns g = [a, b]"
      by blast
    from render_two_columns[OF g(2)] obtain x y where
      "unpack2 (columns g) = Inr (a, b)" "getitem g a = Inr x" "getitem g b = Inr y" by blast
    with sel True g(1) show ?thesis by (simp add: render_panel_def)
  next
    case False
    from render_two_columns[OF cs] obtain x y where
      "unpack2 (columns (select_cols c [t, name])) = Inr (t, name)"
      "getitem (select_cols c [t, name]) t = Inr x" "getitem (select_cols c [t, name]) name = Inr y"
      by blast
    with sel False show ?thesis by (simp add: render_panel_def)
  qed
qed

lemma first_trace_name:
  "map trace_name (traces p) = [n] \<Longrightarrow> trace_name (hd (traces p)) = n"
  by (cases "traces p") simp_all

lemma panel_name_after_marks:
  assumes "map trace_name (traces p) = [n]"
  shows "trace_name (hd (traces (p\<lparr>traces := traces p @ marks\<rparr>))) = n"
  using assms by (cases "traces p") simp_all

lemma add_changepoint_traces_names:
  assumes "add_changepoint_traces c cps names ps = Inr ps'"
    and "\<forall>p\<in>set ps. \<exists>n. map trace_name (traces p) = [n]"
  shows "map (\<lambda>p. trace_name (hd (traces p))) ps' = map (\<lambda>p. trace_name (hd (traces p))) ps"
proof -
  let ?f = "\<lambda>p. trace_name (hd (traces p))"
  have upd: "map ?f (ps[row := (ps ! row)\<lparr>traces := traces (ps ! row) @ marks\<rparr>]) = map ?f ps" for row marks
  proof (cases "row < length ps")
    case True
    then have "ps ! row \<in> set ps" by simp
    with assms(2) have "\<exists>n. map trace_name (traces (ps ! row)) = [n]" by (rule bspec)
    then obtain n where n: "map trace_name (traces (ps ! row)) = [n]" ..
    have "?f ((ps ! row)\<lparr>traces := traces (ps ! row) @ marks\<rparr>) = ?f (ps ! row)"
      using panel_name_after_marks[OF n] first_trace_name[OF n] by simp
    then have "map ?f (ps[row := (ps ! row)\<lparr>traces := traces (ps ! row) @ marks\<rparr>]) = (map ?f ps)[row := ?f (ps ! row)]"
      by (simp add: map_update)
    also have "\<dots> = map ?f ps"
      using True by (simp add: list_update_same_conv)
    finally show ?thesis .
  next
    case False
    then have "length ps \<le> row" by simp
    then have "ps[row := (ps ! row)\<lparr>traces := traces (ps ! row) @ marks\<rparr>] = ps"
      by (rule list_update_beyond)
    then show ?thesis by (simp only:)
  qed
  from assms(1) show ?thesis
    by (auto simp: add_changepoint_traces_def Let_def upd split: option.splits if_splits sum.splits)
qed

lemma add_changepoint_traces_succeeds:
  assumes "''trend'' \<in> set names \<Longrightarrow> ''trend'' \<in> set (columns c)"
  shows "\<exists>ps'. add_changepoint_traces c cps names ps = Inr ps'"
proof (cases "cps \<noteq> None \<and> ''trend'' \<in> set names")
  case True
  with assms obtain tr where "getitem c ''trend'' = Inr tr" using getitem_Inr_iff by blast
  with True show ?thesis by (auto simp: add_changepoint_traces_def Let_def)
next
  case False
  then show ?thesis by (auto simp: add_changepoint_traces_def split: option.splits)
qed

lemma map_result_member:
  "map_result f xs = Inr ys \<Longrightarrow> y \<in> set ys \<Longrightarrow> \<exists>x. f x = Inr y"
proof (induction xs arbitrary: ys)
  case Nil
  then show ?case by simp
next
  case (Cons x xs)
  then show ?case by (auto split: sum.splits)
qed

lemma unpack2_take2:
  assumes "unpack2 (take 2 cs) = Inr (a, b)"
  shows "\<exists>rest. cs = a # b # rest"
proof -
  from assms have "take 2 cs = [a, b]"
    by (auto simp: unpack2_def split: list.splits)
  then show ?thesis
    by (cases cs; cases "tl cs") (auto simp: take_Suc_conv_app_nth numeral_2_eq_2)
qed

lemma plot_with_names_kept:
  assumes wf: "wf_frame comps"
    and tv: "unpack2 (take 2 (columns comps)) = Inr (t, v)"
    and t: "t \<noteq> ''trend_changepoints''"
    and nk: "names_kept_of (drop_col comps ''trend_changepoints'') v names = Inr (w, kept)"
    and ne: "kept \<noteq> []"
    and sub: "set kept \<subseteq> set (columns (drop_col comps ''trend_changepoints''))"
    and seas: "\<forall>n\<in>set kept. str_contains ''SEASONALITY'' n \<longrightarrow> n \<in> fst ` set (components_enum k)"
  shows "\<exists>fig. plot_silverkite_components k comps names title = Inr (w, fig) \<and>
               panel_names fig = kept \<and> fig_height fig = 350 * length kept"
proof -
  define c' where "c' = drop_col comps ''trend_changepoints''"
  from unpack2_take2[OF tv] obtain rest where cs: "columns comps = t # v # rest" by blast
  then have tin: "t \<in> set (columns comps)" by simp
  with t have tin': "t \<in> set (columns c')" by (simp add: c'_def columns_drop_col)
  from strip_changepoints_Inr[OF tin] obtain cps where
    strip: "strip_changepoints comps t = Inr (cps, c')" unfolding c'_def by blast
  have wf': "wf_frame c'" unfolding c'_def by (rule wf_drop_col[OF wf])
  have "\<exists>p. render_panel k c' t n = Inr p" if "n \<in> set kept" for n
    using that sub seas by (intro render_panel_succeeds[OF wf' tin']) (auto simp: c'_def)
  from map_result_succeeds[of kept "render_panel k c' t", OF this] obtain ps where
    ps: "map_result (render_panel k c' t) kept = Inr ps" by blast
  have single: "\<forall>p\<in>set ps. \<exists>n. map trace_name (traces p) = [n]"
  proof
    fix p assume "p \<in> set ps"
    from map_result_member[OF ps this] obtain n where "render_panel k c' t n = Inr p" ..
    from render_panel_name[OF this] show "\<exists>n. map trace_name (traces p) = [n]" ..
  qed
  have names_ps: "map (\<lambda>p. trace_name (hd (traces p))) ps = kept"
    by (rule map_result_Inr[OF ps], rule first_trace_name, rule render_panel_name)
  have "''trend'' \<in> set kept \<Longrightarrow> ''trend'' \<in> set (columns c')"
    using sub by (auto simp: c'_def)
  from add_changepoint_traces_succeeds[OF this, of kept cps ps] obtain ps' where
    ps': "add_changepoint_traces c' cps kept ps = Inr ps'" by blast
  from add_changepoint_traces_names[OF ps' single] names_ps
  have names_ps': "map (\<lambda>p. trace_name (hd (traces p))) ps' = kept" by simp
  have "plot_silverkite_components k comps names title =
        Inr (w, \<lparr>fig_title = (case title of None \<Rightarrow> ''Component plots'' | Some t \<Rightarrow> t),
                 fig_height = 350 * length kept, fig_panels = ps'\<rparr>)"
    using tv strip nk ne ps ps'
    by (simp add: plot_silverkite_components_def c'_def[symmetric] Let_def)
  with names_ps' show ?thesis by (simp add: panel_names_def)
qed

subsection \<open>The panels of the figure\<close>

text \<open>
  Claim C7. With \<^verbatim>\<open>names=None\<close> the figure has exactly one panel for each column of the
  components table other than the time column and the \<^verbatim>\<open>trend_changepoints\<close> column, in
  the order of the table, so that the value column comes first.
\<close>

theorem plot_all_components:
  assumes "wf_frame comps"
    and "unpack2 (take 2 (columns comps)) = Inr (t, v)"
    and "t \<noteq> ''trend_changepoints''" and "v \<noteq> ''trend_changepoints''"
    and "\<forall>n\<in>set (tl (columns comps)). str_contains ''SEASONALITY'' n \<longrightarrow>
            n \<in> fst ` set (components_enum k)"
  shows "\<exists>fig. plot_silverkite_components k comps None title = Inr (None, fig) \<and>
               panel_names fig = filter (\<lambda>n. n \<noteq> ''trend_changepoints'') (tl (columns comps)) \<and>
               length (fig_panels fig) =
                 length (filter (\<lambda>n. n \<noteq> ''trend_changepoints'') (tl (columns comps))) \<and>
               hd (panel_names fig) = v"
proof -
  let ?kept = "filter (\<lambda>n. n \<noteq> ''trend_changepoints'') (tl (columns comps))"
  from unpack2_take2[OF assms(2)] obtain rest where cs: "columns comps = t # v # rest" by blast
  have tl_eq: "tl (columns (drop_col comps ''trend_changepoints'')) = ?kept"
    using cs assms(3) by (simp add: columns_drop_col)
  have nk: "names_kept_of (drop_col comps ''trend_changepoints'') v None = Inr (None, ?kept)"
    by (simp add: names_kept_of_def tl_eq)
  have ne: "?kept \<noteq> []" using cs assms(4) by simp
  have hd: "hd ?kept = v" using cs assms(4) by simp
  have sub: "set ?kept \<subseteq> set (columns (drop_col comps ''trend_changepoints''))"
    using cs by (auto simp: columns_drop_col)
  have seas: "\<forall>n\<in>set ?kept. str_contains ''SEASONALITY'' n \<longrightarrow> n \<in> fst ` set (components_enum k)"
    using assms(5) by simp
  from plot_with_names_kept[OF assms(1,2,3) nk ne sub seas, of title] obtain fig where
    fig: "plot_silverkite_components k comps None title = Inr (None, fig)" "panel_names fig = ?kept"
    by blast
  from fig(2) have "length (fig_panels fig) = length ?kept"
    by (metis length_map panel_names_def)
  with fig hd show ?thesis by simp
qed


subsection \<open>The weighted feature matrix\<close>

text \<open>
  Claim C9. In \<^verbatim>\<open>plot_components\<close> the matrix handed to the decomposition is the design
  matrix with every column multiplied by its coefficient; for a model with an intercept
  (an \<^verbatim>\<open>intercept_\<close> other than 0, what \<^verbatim>\<open>if ml_model_intercept\<close> tests) the intercept is
  added to the column \<^verbatim>\<open>Intercept\<close> when the design matrix has one, and otherwise a new last
  column \<^verbatim>\<open>Intercept\<close> holds it on every row. The matrix has the rows of the design matrix.
\<close>

theorem plot_components_weighted_matrix:
  assumes wf: "wf_frame xm" and len: "length cf = length (cols xm)"
  shows "\<exists>w. x_mat_weighted_of cf b xm = Inr w \<and> nrows w = nrows xm \<and> wf_frame w \<and>
           columns w = (if b \<noteq> 0 \<and> ''Intercept'' \<notin> set (columns xm)
                        then columns xm @ [''Intercept''] else columns xm) \<and>
           (\<forall>j<length (cols xm).
              getitem w (fst (cols xm ! j)) =
                Inr (if b \<noteq> 0 \<and> fst (cols xm ! j) = ''Intercept''
                     then map (\<lambda>c. cell_add (cell_scale (cf ! j) c) (Some b)) (snd (cols xm ! j))
                     else map (cell_scale (cf ! j)) (snd (cols xm ! j)))) \<and>
           (b \<noteq> 0 \<and> ''Intercept'' \<notin> set (columns xm) \<longrightarrow>
              getitem w ''Intercept'' = Inr (replicate (nrows xm) (Some b))) \<and>
           plot_components k self
             (Some \<lparr>x_mat = xm, df_dropna = d, ml_model = \<lparr>coef = Some cf, intercept = b\<rparr>\<rparr>) names title =
             (case get_silverkite_components k d (self_time_col self) (self_value_col self) (Some w) of
                Inl e \<Rightarrow> (self, Inl e)
              | Inr c \<Rightarrow> (self\<lparr>self_components := Some c\<rparr>, plot_silverkite_components k c names title))"
proof -
  from weighted_feature_matrix[OF wf len, of b] obtain w where
    w: "x_mat_weighted_of cf b xm = Inr w" and
    rest: "nrows w = nrows xm \<and> wf_frame w \<and>
           columns w = (if b \<noteq> 0 \<and> ''Intercept'' \<notin> set (columns xm)
                        then columns xm @ [''Intercept''] else columns xm) \<and>
           (\<forall>j<length (cols xm).
              getitem w (fst (cols xm ! j)) =
                Inr (if b \<noteq> 0 \<and> fst (cols xm ! j) = ''Intercept''
                     then map (\<lambda>c. cell_add (cell_scale (cf ! j) c) (Some b)) (snd (cols xm ! j))
                     else map (cell_scale (cf ! j)) (snd (cols xm ! j)))) \<and>
           (b \<noteq> 0 \<and> ''Intercept'' \<notin> set (columns xm) \<longrightarrow>
              getitem w ''Intercept'' = Inr (replicate (nrows xm) (Some b)))"
    by blast
  have "plot_components k self
             (Some \<lparr>x_mat = xm, df_dropna = d, ml_model = \<lparr>coef = Some cf, intercept = b\<rparr>\<rparr>) names title =
             (case get_silverkite_components k d (self_time_col self) (self_value_col self) (Some w) of
                Inl e \<Rightarrow> (self, Inl e)
              | Inr c \<Rightarrow> (self\<lparr>self_components := Some c\<rparr>, plot_silverkite_components k c names title))"
    using w by (simp add: plot_components_def)
  with w rest show ?thesis by blast
qed

theorem plot_components_weighted_matrix_witness:
  "wf_frame ex_x_mat \<and> length [2, 3 :: real] = length (cols ex_x_mat) \<and>
   x_mat_weighted_of [2, 3] (1/2) ex_x_mat = Inr ex_x_mat_weighted \<and>
   nrows ex_x_mat_weighted = nrows ex_x_mat \<and> wf_frame ex_x_mat_weighted \<and>
   columns ex_x_mat_weighted = columns ex_x_mat"
proof -
  have wf: "wf_frame ex_x_mat" by code_simp
  have len: "length [2, 3 :: real] = length (cols ex_x_mat)" by code_simp
  have run: "x_mat_weighted_of [2, 3] (1/2) ex_x_mat = Inr ex_x_mat_weighted" by code_simp
  have i: "''Intercept'' \<in> set (columns ex_x_mat)" by code_simp
  from plot_components_weighted_matrix[OF wf len, of "1/2" ex_constants ex_self ex_df None None]
  obtain w where w: "x_mat_weighted_of [2, 3] (1/2) ex_x_mat = Inr w" "nrows w = nrows ex_x_mat"
    "wf_frame w" "columns w = (if (1/2::real) \<noteq> 0 \<and> ''Intercept'' \<notin> set (columns ex_x_mat)
                        then columns ex_x_mat @ [''Intercept''] else columns ex_x_mat)"
    by blast
  from w(1) run have "w = ex_x_mat_weighted" by simp
  with w i wf len run show ?thesis by simp
qed

lemma ex_components_facts:
  "wf_frame ex_components"
  "unpack2 (take 2 (columns ex_components)) = Inr (''ts'', ''y'')"
  "\<forall>n\<in>set (columns ex_components). str_contains ''SEASONALITY'' n \<longrightarrow>
      n \<in> fst ` set (components_enum ex_constants)"
  "\<forall>n\<in>set (tl (columns ex_components)). str_contains ''SEASONALITY'' n \<longrightarrow>
      n \<in> fst ` set (components_enum ex_constants)"
  by code_simp+

theorem plot_all_components_witness:
  "wf_frame ex_components \<and> unpack2 (take 2 (columns ex_components)) = Inr (''ts'', ''y'') \<and>
   ''ts'' \<noteq> ''trend_changepoints'' \<and> ''y'' \<noteq> ''trend_changepoints'' \<and>
   (\<exists>fig. plot_silverkite_components ex_constants ex_components None None = Inr (None, fig) \<and>
      panel_names fig = [''y'', ''trend'', ''autoregression'', ''lagged_regressor'',
                         ''DAILY_SEASONALITY'', ''events'', ''residual''] \<and>
      length (fig_panels fig) = 7)"
proof -
  have ne: "''ts'' \<noteq> ''trend_changepoints''" "''y'' \<noteq> ''trend_changepoints''" by simp_all
  have f: "filter (\<lambda>n. n \<noteq> ''trend_changepoints'') (tl (columns ex_components)) =
     [''y'', ''trend'', ''autoregression'', ''lagged_regressor'', ''DAILY_SEASONALITY'', ''events'', ''residual'']"
    by code_simp
  from plot_all_components[OF ex_components_facts(1,2) ne ex_components_facts(4), of None]
  obtain fig where fig: "plot_silverkite_components ex_constants ex_components None None = Inr (None, fig)"
    "panel_names fig = [''y'', ''trend'', ''autoregression'', ''lagged_regressor'',
                         ''DAILY_SEASONALITY'', ''events'', ''residual'']"
    "length (fig_panels fig) = length [''y'', ''trend'', ''autoregression'', ''lagged_regressor'',
                         ''DAILY_SEASONALITY'', ''events'', ''residual'']"
    unfolding f by blast
  from fig(3) have "length (fig_panels fig) = 7" by simp
  with fig(1,2) ex_components_facts(1,2) ne show ?thesis by blast
qed


end
